theory Spec2Isabelle
  imports Main
begin

section \<open>Python strings and the builtins used by \<open>app/pagespec.py\<close>\<close>

text \<open>
  A Python \<open>str\<close> is a sequence of Unicode code points, and \<open>str.strip\<close>, \<open>str.split\<close>
  and \<open>int\<close> all work on code points. A string is therefore a list of code points
  (natural numbers); \<open>str\<close> turns an ASCII literal into such a list.
\<close>

type_synonym codepoint = nat
type_synonym pystr = "codepoint list"

definition str :: "string \<Rightarrow> pystr" where
  "str s = map of_char s"

definition comma :: codepoint where "comma = 44"
definition hyphen :: codepoint where "hyphen = 45"
definition plus_sign :: codepoint where "plus_sign = 43"
definition underscore :: codepoint where "underscore = 95"

text \<open>
  \<open>str.isspace\<close> on one code point: the characters of general category Zs or of
  bidirectional class WS, B or S. This is the set that \<open>str.strip()\<close> removes.
\<close>

definition isspace :: "codepoint \<Rightarrow> bool" where
  "isspace c \<longleftrightarrow>
     (9 \<le> c \<and> c \<le> 13) \<or> (28 \<le> c \<and> c \<le> 32) \<or> c = 133 \<or> c = 160 \<or> c = 5760 \<or>
     (8192 \<le> c \<and> c \<le> 8202) \<or> c = 8232 \<or> c = 8233 \<or> c = 8239 \<or> c = 8287 \<or> c = 12288"

text \<open>\<open>s.strip()\<close>: leading and trailing whitespace removed.\<close>

definition strip :: "pystr \<Rightarrow> pystr" where
  "strip s = rev (dropWhile isspace (rev (dropWhile isspace s)))"

text \<open>
  \<open>s.split(sep)\<close> for a one-character separator: the pieces between the separators,
  one more piece than there are separators, empty pieces kept.
\<close>

fun split :: "pystr \<Rightarrow> codepoint \<Rightarrow> pystr list" where
  "split [] sep = [[]]"
| "split (c # cs) sep =
     (if c = sep then [] # split cs sep
      else (let r = split cs sep in (c # hd r) # tl r))"

text \<open>
  Two things \<open>int(s)\<close> depends on belong to the interpreter and not to this program:
  the Unicode table of decimal digits (\<open>todecimal c = Some d\<close> when \<open>c\<close> is a non-ASCII
  decimal digit of value \<open>d\<close>) and the limit on the number of digits of an integer
  literal (\<open>sys.get_int_max_str_digits()\<close>, 4300 by default, 0 for no limit). They are
  parameters of the model.
\<close>

record runtime =
  todecimal :: "codepoint \<Rightarrow> nat option"
  max_str_digits :: nat

text \<open>
  \<open>int(s)\<close> first maps the string to ASCII: an ASCII character stays, a non-ASCII
  whitespace character becomes a space, a non-ASCII decimal digit becomes its ASCII digit,
  and any other character becomes \<open>?\<close>.
\<close>

definition to_ascii :: "runtime \<Rightarrow> codepoint \<Rightarrow> codepoint" where
  "to_ascii rt c =
     (if c < 128 then c
      else if isspace c then 32
      else (case todecimal rt c of
              Some d \<Rightarrow> if d < 10 then 48 + d else 63
            | None \<Rightarrow> 63))"

text \<open>The whitespace that the integer parser skips around the literal (C's \<open>isspace\<close>).\<close>

definition c_isspace :: "codepoint \<Rightarrow> bool" where
  "c_isspace c \<longleftrightarrow> (9 \<le> c \<and> c \<le> 13) \<or> c = 32"

text \<open>
  The digits of the literal, most significant first: decimal digits with single
  underscores allowed between two digits. \<open>prev\<close> says that the previous character was a
  digit. \<open>None\<close> when some character is neither, when an underscore is not between two
  digits, or when there is no digit at all.
\<close>

fun int_digits :: "bool \<Rightarrow> pystr \<Rightarrow> nat list option" where
  "int_digits prev [] = (if prev then Some [] else None)"
| "int_digits prev (c # cs) =
     (if c = underscore then (if prev then int_digits False cs else None)
      else if 48 \<le> c \<and> c \<le> 57 then map_option ((#) (c - 48)) (int_digits True cs)
      else None)"

text \<open>
  \<open>int(s)\<close> in base 10; \<open>None\<close> stands for raising \<open>ValueError\<close>. Surrounding whitespace is
  skipped, one sign is accepted, and a literal with more digits than the limit is refused.
\<close>

definition py_int :: "runtime \<Rightarrow> pystr \<Rightarrow> int option" where
  "py_int rt s =
     (let a = map (to_ascii rt) s;
          a = rev (dropWhile c_isspace (rev (dropWhile c_isspace a)));
          neg = (a \<noteq> [] \<and> hd a = hyphen);
          a = (if a \<noteq> [] \<and> (hd a = plus_sign \<or> hd a = hyphen) then tl a else a)
      in case int_digits False a of
           None \<Rightarrow> None
         | Some ds \<Rightarrow>
             if 640 < length ds \<and> 0 < max_str_digits rt \<and> max_str_digits rt < length ds
             then None
             else (let n = int (foldl (\<lambda>n d. 10 * n + d) 0 ds)
                   in Some (if neg then - n else n)))"

section \<open>Exceptions\<close>

text \<open>
  The messages of \<open>PageSpecError\<close>, one constructor for each \<open>raise\<close> of the module, with
  the values that the message is formatted from.
\<close>

datatype message =
    EmptySpecification
  | InvalidRangeFormat pystr
  | InvalidNumbersInRange pystr
  | PageNumbersMustBePositive pystr
  | RangeStartGreaterThanEnd int int
  | PageExceedsTotal int int
  | InvalidPageNumber pystr
  | PageNumberMustBePositive int
  | NoValidPages
  | CannotDeleteAllPages

datatype exn = PageSpecError message | ValueError pystr

section \<open>\<open>parse_pagespec\<close>\<close>

text \<open>
  The loop \<open>for page in range(start, end + 1)\<close>, over the list of the values of the range:
  each page is checked against \<open>total_pages\<close> and then added to the set.
\<close>

fun add_range :: "int list \<Rightarrow> int \<Rightarrow> int set \<Rightarrow> exn + int set" where
  "add_range [] total_pages pages = Inr pages"
| "add_range (page # rest) total_pages pages =
     (if page > total_pages then Inl (PageSpecError (PageExceedsTotal page total_pages))
      else add_range rest total_pages (insert page pages))"

text \<open>The branch of the loop body for a token that contains a hyphen.\<close>

definition range_token :: "runtime \<Rightarrow> pystr \<Rightarrow> int \<Rightarrow> int set \<Rightarrow> exn + int set" where
  "range_token rt part total_pages pages =
     (let range_parts = split part hyphen in
      if length range_parts \<noteq> 2 then Inl (PageSpecError (InvalidRangeFormat part))
      else
        (let start_str = strip (range_parts ! 0);
             end_str = strip (range_parts ! 1)
         in if start_str = [] \<or> end_str = [] then Inl (PageSpecError (InvalidRangeFormat part))
            else
              (case py_int rt start_str of
                 None \<Rightarrow> Inl (PageSpecError (InvalidNumbersInRange part))
               | Some start \<Rightarrow>
                   (case py_int rt end_str of
                      None \<Rightarrow> Inl (PageSpecError (InvalidNumbersInRange part))
                    | Some end \<Rightarrow>
                        if start \<le> 0 \<or> end \<le> 0
                        then Inl (PageSpecError (PageNumbersMustBePositive part))
                        else if start > end
                        then Inl (PageSpecError (RangeStartGreaterThanEnd start end))
                        else add_range [start..end] total_pages pages))))"

text \<open>The branch of the loop body for a token without a hyphen.\<close>

definition single_token :: "runtime \<Rightarrow> pystr \<Rightarrow> int \<Rightarrow> int set \<Rightarrow> exn + int set" where
  "single_token rt part total_pages pages =
     (case py_int rt part of
        None \<Rightarrow> Inl (PageSpecError (InvalidPageNumber part))
      | Some page \<Rightarrow>
          if page \<le> 0 then Inl (PageSpecError (PageNumberMustBePositive page))
          else if page > total_pages
          then Inl (PageSpecError (PageExceedsTotal page total_pages))
          else Inr (insert page pages))"

text \<open>The loop \<open>for part in parts\<close>; an exception ends it.\<close>

fun parse_parts :: "runtime \<Rightarrow> pystr list \<Rightarrow> int \<Rightarrow> int set \<Rightarrow> exn + int set" where
  "parse_parts rt [] total_pages pages = Inr pages"
| "parse_parts rt (p # parts) total_pages pages =
     (let part = strip p in
      if part = [] then parse_parts rt parts total_pages pages
      else
        (case (if hyphen \<in> set part then range_token rt part total_pages pages
               else single_token rt part total_pages pages) of
           Inl e \<Rightarrow> Inl e
         | Inr pages' \<Rightarrow> parse_parts rt parts total_pages pages'))"

definition parse_pagespec :: "runtime \<Rightarrow> pystr \<Rightarrow> int \<Rightarrow> exn + int list" where
  "parse_pagespec rt spec total_pages =
     (if spec = [] \<or> strip spec = [] then Inl (PageSpecError EmptySpecification)
      else
        (case parse_parts rt (split (strip spec) comma) total_pages {} of
           Inl e \<Rightarrow> Inl e
         | Inr pages \<Rightarrow>
             if pages = {} then Inl (PageSpecError NoValidPages)
             else Inr (sorted_list_of_set pages)))"

section \<open>\<open>pages_to_keep\<close>\<close>

definition pages_to_keep :: "runtime \<Rightarrow> pystr \<Rightarrow> int \<Rightarrow> pystr \<Rightarrow> exn + int list" where
  "pages_to_keep rt spec total_pages mode =
     (case parse_pagespec rt spec total_pages of
        Inl e \<Rightarrow> Inl e
      | Inr specified_pages \<Rightarrow>
          if mode = str ''extract'' then Inr specified_pages
          else if mode = str ''delete'' then
            (let all_pages = set [1..total_pages];
                 specified_set = set specified_pages;
                 keep_pages = all_pages - specified_set
             in if keep_pages = {} then Inl (PageSpecError CannotDeleteAllPages)
                else Inr (sorted_list_of_set keep_pages))
          else Inl (ValueError mode))"

text \<open>A runtime for concrete runs: no non-ASCII digit, the default digit limit.\<close>

definition ascii_runtime :: runtime where
  "ascii_runtime = \<lparr>todecimal = (\<lambda>c. None), max_str_digits = 4300\<rparr>"

section \<open>The pages a specification names\<close>

text \<open>
  The reading of a specification that the claims about extract mode are measured against,
  written from the description of the format and not from the parser: a token names the
  page it consists of, or the pages of its range from the first bound to the second, and
  a specification names the pages of its tokens from left to right.
\<close>

definition token_pages :: "runtime \<Rightarrow> pystr \<Rightarrow> int list" where
  "token_pages rt tok =
     (let part = strip tok in
      if part = [] then []
      else if hyphen \<in> set part then
        (case split part hyphen of
           [a, b] \<Rightarrow>
             (case (py_int rt (strip a), py_int rt (strip b)) of
                (Some start, Some end) \<Rightarrow> [start..end]
              | _ \<Rightarrow> [])
         | _ \<Rightarrow> [])
      else (case py_int rt part of Some page \<Rightarrow> [page] | None \<Rightarrow> []))"

definition named_pages :: "runtime \<Rightarrow> pystr \<Rightarrow> int list" where
  "named_pages rt spec = concat (map (token_pages rt) (split (strip spec) comma))"

text \<open>A list without its repetitions, every value at the place of its first occurrence.\<close>

definition first_occurrence :: "int list \<Rightarrow> int list" where
  "first_occurrence xs = rev (remdups (rev xs))"

section \<open>Facts about \<open>strip\<close> and \<open>split\<close>\<close>

lemma all_dropWhile_iff: "(\<forall>x\<in>set (dropWhile P s). P x) \<longleftrightarrow> (\<forall>x\<in>set s. P x)"
proof
  assume all: "\<forall>x\<in>set (dropWhile P s). P x"
  have "dropWhile P s = []"
  proof (rule ccontr)
    assume ne: "dropWhile P s \<noteq> []"
    then have "\<not> P (hd (dropWhile P s))" by (rule hd_dropWhile)
    moreover have "hd (dropWhile P s) \<in> set (dropWhile P s)" using ne by simp
    ultimately show False using all by blast
  qed
  then show "\<forall>x\<in>set s. P x" by (simp only: dropWhile_eq_Nil_conv)
next
  assume "\<forall>x\<in>set s. P x"
  then show "\<forall>x\<in>set (dropWhile P s). P x" by (blast dest: set_dropWhileD)
qed

lemma strip_Nil_iff: "strip s = [] \<longleftrightarrow> (\<forall>c\<in>set s. isspace c)"
proof -
  have "strip s = [] \<longleftrightarrow> (\<forall>x\<in>set (rev (dropWhile isspace s)). isspace x)"
    unfolding strip_def rev_is_Nil_conv by (rule dropWhile_eq_Nil_conv)
  then show ?thesis by (simp add: all_dropWhile_iff)
qed

lemma strip_Nil: "strip [] = []"
  by (simp add: strip_def)

lemma set_strip_subset: "set (strip s) \<subseteq> set s"
proof -
  have "set (strip s) \<subseteq> set (dropWhile isspace s)"
    unfolding strip_def using set_dropWhileD [of _ isspace "rev (dropWhile isspace s)"] by auto
  also have "\<dots> \<subseteq> set s" using set_dropWhileD [of _ isspace s] by auto
  finally show ?thesis .
qed

lemma set_dropWhile_super: "set xs \<subseteq> set (dropWhile P xs) \<union> {x. P x}"
  by (induction xs) auto

lemma set_strip_super: "set s \<subseteq> set (strip s) \<union> {c. isspace c}"
proof -
  have "set (dropWhile isspace s) \<subseteq> set (strip s) \<union> {c. isspace c}"
    unfolding strip_def using set_dropWhile_super [of "rev (dropWhile isspace s)" isspace] by auto
  with set_dropWhile_super [of s isspace] show ?thesis by blast
qed

text \<open>\<open>split\<close> never returns the empty list, so its \<open>hd\<close> and \<open>tl\<close> are those of a list.\<close>

lemma split_not_Nil: "split s sep \<noteq> []"
  by (induction s) (auto simp: Let_def)

lemma split_no_sep: "sep \<notin> set s \<Longrightarrow> split s sep = [s]"
  by (induction s) (auto simp: Let_def)

lemma split_two_sep: "split part sep = [a, b] \<Longrightarrow> sep \<in> set part"
  using split_no_sep [of sep part] by auto

lemma set_split: "(\<Union>p\<in>set (split s sep). set p) = set s - {sep}"
proof (induction s)
  case Nil
  show ?case by simp
next
  case (Cons c cs)
  obtain r rs where r: "split cs sep = r # rs"
    using split_not_Nil [of cs sep] by (cases "split cs sep") auto
  with Cons show ?case by (auto simp: Let_def)
qed

lemma split_all_blank_iff:
  "(\<forall>p\<in>set (split s sep). strip p = []) \<longleftrightarrow> (\<forall>c\<in>set s. c = sep \<or> isspace c)"
proof -
  have "(\<forall>p\<in>set (split s sep). strip p = []) \<longleftrightarrow> (\<forall>c\<in>(\<Union>p\<in>set (split s sep). set p). isspace c)"
    by (auto simp: strip_Nil_iff)
  also have "\<dots> \<longleftrightarrow> (\<forall>c\<in>set s. c = sep \<or> isspace c)"
    unfolding set_split by auto
  finally show ?thesis .
qed

lemma commas_and_blanks_iff:
  "strip spec \<noteq> [] \<and> (\<forall>part\<in>set (split (strip spec) comma). strip part = []) \<longleftrightarrow>
     (\<exists>c\<in>set spec. \<not> isspace c) \<and> (\<forall>c\<in>set spec. c = comma \<or> isspace c)"
proof -
  have "(\<forall>c\<in>set (strip spec). c = comma \<or> isspace c) \<longleftrightarrow> (\<forall>c\<in>set spec. c = comma \<or> isspace c)"
    using set_strip_subset [of spec] set_strip_super [of spec] by blast
  then have "(\<forall>part\<in>set (split (strip spec) comma). strip part = []) \<longleftrightarrow>
      (\<forall>c\<in>set spec. c = comma \<or> isspace c)"
    unfolding split_all_blank_iff .
  moreover have "strip spec \<noteq> [] \<longleftrightarrow> (\<exists>c\<in>set spec. \<not> isspace c)"
    unfolding strip_Nil_iff by blast
  ultimately show ?thesis by blast
qed

lemma length_two: "length xs = 2 \<longleftrightarrow> (\<exists>a b. xs = [a, b])"
  by (cases xs; cases "tl xs") auto

lemma py_int_Nil: "py_int rt [] = None"
  by (simp add: py_int_def)

section \<open>The loop over a range\<close>

text \<open>The loop stops at the first page beyond the total, and adds every page otherwise.\<close>

lemma add_range_find:
  "add_range xs total_pages pages =
     (case find (\<lambda>page. total_pages < page) xs of
        Some page \<Rightarrow> Inl (PageSpecError (PageExceedsTotal page total_pages))
      | None \<Rightarrow> Inr (pages \<union> set xs))"
  by (induction xs arbitrary: pages) (auto split: option.splits)

lemma add_range_Inl:
  "add_range xs total_pages pages = Inl e \<Longrightarrow>
   \<exists>page. page \<in> set xs \<and> total_pages < page \<and> e = PageSpecError (PageExceedsTotal page total_pages)"
  by (auto simp: add_range_find find_Some_iff split: option.splits)

lemma find_upto_None: "find (\<lambda>page. total_pages < page) [s..e] = None \<longleftrightarrow> e < s \<or> e \<le> total_pages"
  by (auto simp: find_None_iff)

lemma find_upto_Some:
  "s \<le> e \<Longrightarrow> t < e \<Longrightarrow> find (\<lambda>page. t < page) [s..e] = Some (max s (t + 1))"
proof (induction s e rule: upto.induct)
  case (1 i j)
  show ?case
  proof (cases "t < i")
    case True
    with "1.prems" show ?thesis by (simp add: upto_rec1)
  next
    case False
    with "1.prems" have "i + 1 \<le> j" by simp
    with "1.IH" "1.prems" have "find (\<lambda>page. t < page) [i + 1..j] = Some (max (i + 1) (t + 1))"
      by simp
    with False "1.prems" show ?thesis by (simp add: upto_rec1 max_def)
  qed
qed

section \<open>One token\<close>

lemma range_token_two:
  "split part hyphen = [a, b] \<Longrightarrow>
   range_token rt part total_pages pages =
     (if strip a = [] \<or> strip b = [] then Inl (PageSpecError (InvalidRangeFormat part))
      else
        (case py_int rt (strip a) of
           None \<Rightarrow> Inl (PageSpecError (InvalidNumbersInRange part))
         | Some start \<Rightarrow>
             (case py_int rt (strip b) of
                None \<Rightarrow> Inl (PageSpecError (InvalidNumbersInRange part))
              | Some end \<Rightarrow>
                  if start \<le> 0 \<or> end \<le> 0
                  then Inl (PageSpecError (PageNumbersMustBePositive part))
                  else if start > end
                  then Inl (PageSpecError (RangeStartGreaterThanEnd start end))
                  else add_range [start..end] total_pages pages)))"
  by (simp add: range_token_def)

lemma range_token_not_two:
  "length (split part hyphen) \<noteq> 2 \<Longrightarrow>
   range_token rt part total_pages pages = Inl (PageSpecError (InvalidRangeFormat part))"
  by (simp add: range_token_def)

lemma range_token_Inr:
  assumes "range_token rt part total_pages pages = Inr pages'"
  shows "\<exists>a b start end. split part hyphen = [a, b] \<and> py_int rt (strip a) = Some start \<and>
           py_int rt (strip b) = Some end \<and> 0 < start \<and> start \<le> end \<and> end \<le> total_pages \<and>
           pages' = pages \<union> {start..end}"
proof -
  have "length (split part hyphen) = 2"
    using assms range_token_not_two [of part rt total_pages pages] by auto
  then obtain a b where ab: "split part hyphen = [a, b]"
    by (auto simp: length_two)
  from assms show ?thesis
    unfolding range_token_two [OF ab] add_range_find using ab
    by (auto split: if_splits option.splits simp: find_upto_None)
qed

lemma single_token_Inr:
  "single_token rt part total_pages pages = Inr pages' \<Longrightarrow>
   \<exists>page. py_int rt part = Some page \<and> 0 < page \<and> page \<le> total_pages \<and> pages' = insert page pages"
  by (auto simp: single_token_def split: option.splits if_splits)

lemma range_token_Inl:
  assumes "range_token rt part total_pages pages = Inl e"
  shows "\<exists>m. e = PageSpecError m \<and> m \<noteq> EmptySpecification \<and> m \<noteq> NoValidPages"
proof (cases "length (split part hyphen) = 2")
  case False
  with assms show ?thesis by (auto simp: range_token_not_two)
next
  case True
  then obtain a b where ab: "split part hyphen = [a, b]"
    by (auto simp: length_two)
  from assms show ?thesis
    unfolding range_token_two [OF ab]
    by (auto split: if_splits option.splits dest!: add_range_Inl)
qed

lemma single_token_Inl:
  "single_token rt part total_pages pages = Inl e \<Longrightarrow>
   \<exists>m. e = PageSpecError m \<and> m \<noteq> EmptySpecification \<and> m \<noteq> NoValidPages"
  by (auto simp: single_token_def split: option.splits if_splits)

text \<open>A token that is accepted adds pages between 1 and the total, at least one of them.\<close>

lemma token_Inr:
  assumes "(if hyphen \<in> set part then range_token rt part total_pages pages
            else single_token rt part total_pages pages) = Inr pages'"
  shows "pages \<subseteq> pages' \<and> pages' \<noteq> {} \<and> (\<forall>x\<in>pages' - pages. 1 \<le> x \<and> x \<le> total_pages) \<and>
         (finite pages \<longrightarrow> finite pages')"
proof (cases "hyphen \<in> set part")
  case True
  with assms have "range_token rt part total_pages pages = Inr pages'" by simp
  from range_token_Inr [OF this] show ?thesis by auto
next
  case False
  with assms have "single_token rt part total_pages pages = Inr pages'" by simp
  from single_token_Inr [OF this] show ?thesis by auto
qed

lemma token_Inl:
  assumes "(if hyphen \<in> set part then range_token rt part total_pages pages
            else single_token rt part total_pages pages) = Inl e"
  shows "\<exists>m. e = PageSpecError m \<and> m \<noteq> EmptySpecification \<and> m \<noteq> NoValidPages"
  using assms range_token_Inl single_token_Inl by (auto split: if_splits)

lemma token_pages_Inr:
  assumes ne: "strip p \<noteq> []"
    and r: "(if hyphen \<in> set (strip p) then range_token rt (strip p) total_pages pages
             else single_token rt (strip p) total_pages pages) = Inr pages'"
  shows "pages' = pages \<union> set (token_pages rt p)"
proof (cases "hyphen \<in> set (strip p)")
  case True
  with r have "range_token rt (strip p) total_pages pages = Inr pages'" by simp
  from range_token_Inr [OF this] True ne show ?thesis
    by (auto simp: token_pages_def)
next
  case False
  with r have "single_token rt (strip p) total_pages pages = Inr pages'" by simp
  from single_token_Inr [OF this] False ne show ?thesis
    by (auto simp: token_pages_def)
qed

lemma token_pages_blank: "strip p = [] \<Longrightarrow> token_pages rt p = []"
  by (simp add: token_pages_def)

section \<open>The loop over the tokens\<close>

lemma parse_parts_Cons:
  "parse_parts rt (p # parts) total_pages pages =
     (if strip p = [] then parse_parts rt parts total_pages pages
      else
        (case (if hyphen \<in> set (strip p) then range_token rt (strip p) total_pages pages
               else single_token rt (strip p) total_pages pages) of
           Inl e \<Rightarrow> Inl e
         | Inr pages' \<Rightarrow> parse_parts rt parts total_pages pages'))"
  by (simp add: Let_def)

text \<open>
  What holds of the set when the loop ends normally: it has grown, by pages between 1 and
  the total only, it is finite if it was, and it is not empty if there was a token to read.
\<close>

lemma parse_parts_Inr:
  "parse_parts rt parts total_pages pages = Inr pages' \<Longrightarrow>
   pages \<subseteq> pages' \<and> (\<forall>x\<in>pages' - pages. 1 \<le> x \<and> x \<le> total_pages) \<and>
   (finite pages \<longrightarrow> finite pages') \<and> ((\<exists>p\<in>set parts. strip p \<noteq> []) \<longrightarrow> pages' \<noteq> {})"
proof (induction parts arbitrary: pages)
  case Nil
  then show ?case by simp
next
  case (Cons p parts)
  show ?case
  proof (cases "strip p = []")
    case True
    with Cons.prems have "parse_parts rt parts total_pages pages = Inr pages'"
      by (simp add: parse_parts_Cons)
    from Cons.IH [OF this] True show ?thesis by simp
  next
    case False
    let ?r = "if hyphen \<in> set (strip p) then range_token rt (strip p) total_pages pages
              else single_token rt (strip p) total_pages pages"
    from Cons.prems False obtain mid where mid: "?r = Inr mid"
      and rest: "parse_parts rt parts total_pages mid = Inr pages'"
      unfolding parse_parts_Cons by (cases ?r) auto
    from token_Inr [OF mid] have t: "pages \<subseteq> mid" "mid \<noteq> {}"
      "\<forall>x\<in>mid - pages. 1 \<le> x \<and> x \<le> total_pages" "finite pages \<longrightarrow> finite mid"
      by simp_all
    from Cons.IH [OF rest] have r: "mid \<subseteq> pages'"
      "\<forall>x\<in>pages' - mid. 1 \<le> x \<and> x \<le> total_pages" "finite mid \<longrightarrow> finite pages'"
      by simp_all
    from t r show ?thesis by blast
  qed
qed

text \<open>The loop raises none of the two errors that \<open>parse_pagespec\<close> raises around it.\<close>

lemma parse_parts_Inl:
  "parse_parts rt parts total_pages pages = Inl e \<Longrightarrow>
   \<exists>m. e = PageSpecError m \<and> m \<noteq> EmptySpecification \<and> m \<noteq> NoValidPages"
proof (induction parts arbitrary: pages)
  case Nil
  then show ?case by simp
next
  case (Cons p parts)
  show ?case
  proof (cases "strip p = []")
    case True
    with Cons.prems have "parse_parts rt parts total_pages pages = Inl e"
      by (simp add: parse_parts_Cons)
    from Cons.IH [OF this] show ?thesis .
  next
    case False
    let ?r = "if hyphen \<in> set (strip p) then range_token rt (strip p) total_pages pages
              else single_token rt (strip p) total_pages pages"
    show ?thesis
    proof (cases ?r)
      case (Inl e')
      with Cons.prems False have "e' = e" unfolding parse_parts_Cons by simp
      with Inl token_Inl show ?thesis by blast
    next
      case (Inr mid)
      with Cons.prems False have "parse_parts rt parts total_pages mid = Inl e"
        unfolding parse_parts_Cons by simp
      from Cons.IH [OF this] show ?thesis .
    qed
  qed
qed

lemma parse_parts_all_blank:
  "\<forall>p\<in>set parts. strip p = [] \<Longrightarrow> parse_parts rt parts total_pages pages = Inr pages"
  by (induction parts) (simp_all add: parse_parts_Cons)

lemma parse_parts_named:
  "parse_parts rt parts total_pages pages = Inr pages' \<Longrightarrow>
   pages' = pages \<union> set (concat (map (token_pages rt) parts))"
proof (induction parts arbitrary: pages)
  case Nil
  then show ?case by simp
next
  case (Cons p parts)
  show ?case
  proof (cases "strip p = []")
    case True
    with Cons.prems have "parse_parts rt parts total_pages pages = Inr pages'"
      by (simp add: parse_parts_Cons)
    from Cons.IH [OF this] True show ?thesis by (simp add: token_pages_blank)
  next
    case False
    let ?r = "if hyphen \<in> set (strip p) then range_token rt (strip p) total_pages pages
              else single_token rt (strip p) total_pages pages"
    from Cons.prems False obtain mid where mid: "?r = Inr mid"
      and rest: "parse_parts rt parts total_pages mid = Inr pages'"
      unfolding parse_parts_Cons by (cases ?r) auto
    from token_pages_Inr [OF False mid] Cons.IH [OF rest] show ?thesis by auto
  qed
qed

section \<open>The whole parse\<close>

lemma parse_pagespec_Inr:
  assumes "parse_pagespec rt spec total_pages = Inr ps"
  shows "\<exists>pages. parse_parts rt (split (strip spec) comma) total_pages {} = Inr pages \<and>
           pages \<noteq> {} \<and> finite pages \<and> (\<forall>x\<in>pages. 1 \<le> x \<and> x \<le> total_pages) \<and>
           ps = sorted_list_of_set pages"
proof -
  from assms obtain pages where
    pp: "parse_parts rt (split (strip spec) comma) total_pages {} = Inr pages"
    and ne: "pages \<noteq> {}" and ps: "ps = sorted_list_of_set pages"
    by (auto simp: parse_pagespec_def split: if_splits sum.splits)
  from parse_parts_Inr [OF pp] have "finite pages" "\<forall>x\<in>pages. 1 \<le> x \<and> x \<le> total_pages"
    by simp_all
  with pp ne ps show ?thesis by blast
qed

lemma parse_pagespec_empty_iff:
  "parse_pagespec rt spec total_pages = Inl (PageSpecError EmptySpecification) \<longleftrightarrow>
     (\<forall>c\<in>set spec. isspace c)"
proof
  assume l: "parse_pagespec rt spec total_pages = Inl (PageSpecError EmptySpecification)"
  show "\<forall>c\<in>set spec. isspace c"
  proof (rule ccontr)
    assume "\<not> (\<forall>c\<in>set spec. isspace c)"
    then have ne: "strip spec \<noteq> []" "spec \<noteq> []" by (auto simp: strip_Nil_iff)
    show False
    proof (cases "parse_parts rt (split (strip spec) comma) total_pages {}")
      case (Inl e)
      with l ne have "e = PageSpecError EmptySpecification" by (simp add: parse_pagespec_def)
      with parse_parts_Inl [OF Inl] show False by auto
    next
      case (Inr pages)
      with l ne show False by (simp add: parse_pagespec_def split: if_splits)
    qed
  qed
next
  assume "\<forall>c\<in>set spec. isspace c"
  then have "strip spec = []" by (simp add: strip_Nil_iff)
  then show "parse_pagespec rt spec total_pages = Inl (PageSpecError EmptySpecification)"
    by (simp add: parse_pagespec_def)
qed

lemma parse_pagespec_no_valid_iff:
  "parse_pagespec rt spec total_pages = Inl (PageSpecError NoValidPages) \<longleftrightarrow>
     strip spec \<noteq> [] \<and> (\<forall>part\<in>set (split (strip spec) comma). strip part = [])"
proof
  assume l: "parse_pagespec rt spec total_pages = Inl (PageSpecError NoValidPages)"
  then have ne: "strip spec \<noteq> []" "spec \<noteq> []"
    by (auto simp: parse_pagespec_def strip_Nil split: if_splits)
  show "strip spec \<noteq> [] \<and> (\<forall>part\<in>set (split (strip spec) comma). strip part = [])"
  proof (cases "parse_parts rt (split (strip spec) comma) total_pages {}")
    case (Inl e)
    with l ne have "e = PageSpecError NoValidPages" by (simp add: parse_pagespec_def)
    with parse_parts_Inl [OF Inl] show ?thesis by auto
  next
    case (Inr pages)
    with l ne have "pages = {}" by (simp add: parse_pagespec_def split: if_splits)
    with parse_parts_Inr [OF Inr] ne show ?thesis by auto
  qed
next
  assume r: "strip spec \<noteq> [] \<and> (\<forall>part\<in>set (split (strip spec) comma). strip part = [])"
  then have "parse_parts rt (split (strip spec) comma) total_pages {} = Inr {}"
    by (simp add: parse_parts_all_blank)
  moreover from r have "spec \<noteq> []" by (auto simp: strip_Nil)
  ultimately show "parse_pagespec rt spec total_pages = Inl (PageSpecError NoValidPages)"
    using r by (simp add: parse_pagespec_def)
qed

section \<open>Runs on concrete input\<close>

text \<open>
  The inputs are ASCII and short, so the results are those of every runtime. The ordered
  lists of the concrete sets come first.
\<close>

lemmas token_defs = strip_def isspace_def comma_def hyphen_def plus_sign_def underscore_def
  py_int_def to_ascii_def c_isspace_def range_token_def single_token_def

lemma sorted_135: "sorted_list_of_set {5, 1, 3 :: int} = [1, 3, 5]"
  by code_simp

lemma sorted_1345: "sorted_list_of_set {1, 3, 4, 5 :: int} = [1, 3, 4, 5]"
  by code_simp

lemma sorted_124: "sorted_list_of_set {1, 2, 4 :: int} = [1, 2, 4]"
  by code_simp

lemma sorted_123: "sorted_list_of_set {1, 2, 3 :: int} = [1, 2, 3]"
  by code_simp

lemma sorted_13: "sorted_list_of_set ({1..3} - {2 :: int}) = [1, 3]"
  by code_simp

lemma eval_5_10: "parse_pagespec rt (str ''5-10'') 7 = Inl (PageSpecError (PageExceedsTotal 8 7))"
  by (simp add: parse_pagespec_def str_def token_defs)

lemma eval_commas_1: "parse_pagespec rt (str '',,1,,'') 5 = Inr [1]"
  by (simp add: parse_pagespec_def str_def token_defs)

lemma eval_hyphen:
  "parse_pagespec rt (str ''-'') total_pages = Inl (PageSpecError (InvalidRangeFormat (str ''-'')))"
  by (simp add: parse_pagespec_def str_def token_defs)

lemma eval_empty: "parse_pagespec rt (str '''') 5 = Inl (PageSpecError EmptySpecification)"
  by (simp add: parse_pagespec_def str_def token_defs)

lemma eval_blank: "parse_pagespec rt (str ''   '') 5 = Inl (PageSpecError EmptySpecification)"
  by (simp add: parse_pagespec_def str_def token_defs)

lemma eval_1: "parse_pagespec rt (str ''1'') 5 = Inr [1]"
  by (simp add: parse_pagespec_def str_def token_defs)

lemma eval_2: "parse_pagespec rt (str ''2'') 3 = Inr [2]"
  by (simp add: parse_pagespec_def str_def token_defs)

lemma eval_513_parts: "parse_parts rt (split (strip (str ''5,1,3'')) comma) 5 {} = Inr {5, 1, 3}"
  by (simp add: str_def token_defs insert_commute)

lemma eval_513: "parse_pagespec rt (str ''5,1,3'') 5 = Inr [1, 3, 5]"
proof -
  have "strip (str ''5,1,3'') \<noteq> []" by (simp add: str_def strip_def isspace_def)
  then show ?thesis
    unfolding parse_pagespec_def eval_513_parts
    by (simp add: sorted_135 str_def del: sorted_list_of_set_insert_remove)
qed

lemma eval_mixed_parts:
  "parse_parts rt (split (strip (str ''1,3-5,3'')) comma) 10 {} = Inr {1, 3, 4, 5}"
  by (simp add: str_def token_defs insert_commute)

lemma eval_mixed: "parse_pagespec rt (str ''1,3-5,3'') 10 = Inr [1, 3, 4, 5]"
proof -
  have "strip (str ''1,3-5,3'') \<noteq> []" by (simp add: str_def strip_def isspace_def)
  then show ?thesis
    unfolding parse_pagespec_def eval_mixed_parts
    by (simp add: sorted_1345 str_def del: sorted_list_of_set_insert_remove)
qed

lemma eval_124_parts:
  "parse_parts rt (split (strip (str ''1-2,4'')) comma) 4 {} = Inr {1, 2, 4}"
  by (simp add: str_def token_defs insert_commute upto_rec1)

lemma eval_124: "parse_pagespec rt (str ''1-2,4'') 4 = Inr [1, 2, 4]"
proof -
  have "strip (str ''1-2,4'') \<noteq> []" by (simp add: str_def strip_def isspace_def)
  then show ?thesis
    unfolding parse_pagespec_def eval_124_parts
    by (simp add: sorted_124 str_def del: sorted_list_of_set_insert_remove)
qed

lemma eval_123_parts:
  "parse_parts rt (split (strip (str ''1-3'')) comma) 3 {} = Inr {1, 2, 3}"
  by (simp add: str_def token_defs insert_commute upto_rec1)

lemma eval_123: "parse_pagespec rt (str ''1-3'') 3 = Inr [1, 2, 3]"
proof -
  have "strip (str ''1-3'') \<noteq> []" by (simp add: str_def strip_def isspace_def)
  then show ?thesis
    unfolding parse_pagespec_def eval_123_parts
    by (simp add: sorted_123 str_def del: sorted_list_of_set_insert_remove)
qed

lemma eval_delete_2: "pages_to_keep rt (str ''2'') 3 (str ''delete'') = Inr [1, 3]"
proof -
  have "(1::int) \<in> {1..3}" "(1::int) \<notin> {2}" by simp_all
  then have "\<not> {1..3} \<subseteq> {2::int}" by blast
  then show ?thesis
    unfolding pages_to_keep_def eval_2 by (simp add: str_def sorted_13 Let_def)
qed

lemma eval_named_513: "first_occurrence (named_pages rt (str ''5,1,3'')) = [5, 1, 3]"
  by (simp add: first_occurrence_def named_pages_def token_pages_def str_def token_defs)

lemma py_int_5: "py_int rt (str ''5'') = Some 5"
  by (simp add: str_def token_defs)

lemma py_int_10: "py_int rt (str ''10'') = Some 10"
  by (simp add: str_def token_defs)

lemma split_5_10: "split (strip (str ''5-10'')) hyphen = [str ''5'', str ''10'']"
  by (simp add: str_def strip_def isspace_def hyphen_def)

lemma strip_digits: "strip (str ''5'') = str ''5''" "strip (str ''10'') = str ''10''"
  by (simp_all add: str_def strip_def isspace_def)

section \<open>The claims\<close>

text \<open>
  C1. Whenever \<open>parse_pagespec(spec, total_pages)\<close> returns a list, every value of the
  list lies between 1 and \<open>total_pages\<close>, and no value occurs twice.
\<close>

theorem parse_pagespec_in_range_distinct:
  "parse_pagespec rt spec total_pages = Inr ps \<Longrightarrow>
   (\<forall>p\<in>set ps. 1 \<le> p \<and> p \<le> total_pages) \<and> distinct ps"
  by (drule parse_pagespec_Inr) auto

theorem parse_pagespec_in_range_distinct_witness:
  "parse_pagespec ascii_runtime (str ''1,3-5,3'') 10 = Inr [1, 3, 4, 5] \<and>
   set [1, 3, 4, 5 :: int] \<subseteq> {1..10} \<and> distinct [1, 3, 4, 5 :: int]"
  using parse_pagespec_in_range_distinct [OF eval_mixed [of ascii_runtime]]
    eval_mixed [of ascii_runtime]
  by simp

text \<open>
  C2, as the specification states it: in extract mode the pages come back in the order in
  which the specification first names them, so that \<open>"5,1,3"\<close> gives \<open>[5, 1, 3]\<close>. The
  code does not do that: \<open>"5,1,3"\<close> parses, the pages in the order of their first naming
  are \<open>[5, 1, 3]\<close>, and \<open>pages_to_keep\<close> returns \<open>[1, 3, 5]\<close>.
\<close>

theorem extract_first_occurrence_counterexample:
  "parse_pagespec ascii_runtime (str ''5,1,3'') 5 = Inr [1, 3, 5] \<and>
   first_occurrence (named_pages ascii_runtime (str ''5,1,3'')) = [5, 1, 3] \<and>
   pages_to_keep ascii_runtime (str ''5,1,3'') 5 (str ''extract'') \<noteq> Inr [5, 1, 3]"
  by (simp add: eval_513 eval_named_513 pages_to_keep_def)

text \<open>
  C2, amended: for every specification that parses, \<open>pages_to_keep\<close> in extract mode
  returns the parse result itself, which is the set of the pages that the specification
  names, without duplicates, in ascending order.
\<close>

theorem extract_ascending:
  assumes "parse_pagespec rt spec total_pages = Inr ps"
  shows "pages_to_keep rt spec total_pages (str ''extract'') = Inr ps \<and>
         ps = sorted_list_of_set (set (named_pages rt spec))"
proof -
  from parse_pagespec_Inr [OF assms] obtain pages where
    pp: "parse_parts rt (split (strip spec) comma) total_pages {} = Inr pages"
    and ps: "ps = sorted_list_of_set pages" by blast
  from parse_parts_named [OF pp] have "pages = set (named_pages rt spec)"
    by (simp add: named_pages_def)
  with ps assms show ?thesis by (simp add: pages_to_keep_def)
qed

theorem extract_ascending_witness:
  "parse_pagespec ascii_runtime (str ''5,1,3'') 5 = Inr [1, 3, 5] \<and>
   pages_to_keep ascii_runtime (str ''5,1,3'') 5 (str ''extract'') = Inr [1, 3, 5] \<and>
   [1, 3, 5] = sorted_list_of_set (set (named_pages ascii_runtime (str ''5,1,3'')))"
  using extract_ascending [OF eval_513 [of ascii_runtime]] eval_513 [of ascii_runtime]
  by simp

text \<open>
  C3. When the specification parses to the pages \<open>ps\<close>, \<open>pages_to_keep\<close> in delete mode
  raises the "cannot delete all pages" error if no page of \<open>1..total_pages\<close> is left, and
  otherwise returns the pages of \<open>1..total_pages\<close> that are not in \<open>ps\<close>, in ascending
  order. Deleting \<open>"2"\<close> from three pages keeps \<open>[1, 3]\<close>.
\<close>

theorem delete_complement:
  assumes "parse_pagespec rt spec total_pages = Inr ps"
  shows "pages_to_keep rt spec total_pages (str ''delete'') =
           (if {1..total_pages} - set ps = {} then Inl (PageSpecError CannotDeleteAllPages)
            else Inr (sorted_list_of_set ({1..total_pages} - set ps))) \<and>
         set (sorted_list_of_set ({1..total_pages} - set ps)) = {1..total_pages} - set ps \<and>
         sorted_wrt (<) (sorted_list_of_set ({1..total_pages} - set ps)) \<and>
         pages_to_keep rt (str ''2'') 3 (str ''delete'') = Inr [1, 3]"
proof -
  have "str ''delete'' \<noteq> str ''extract''" by (simp add: str_def)
  with assms have "pages_to_keep rt spec total_pages (str ''delete'') =
      (if {1..total_pages} - set ps = {} then Inl (PageSpecError CannotDeleteAllPages)
       else Inr (sorted_list_of_set ({1..total_pages} - set ps)))"
    by (simp add: pages_to_keep_def Let_def)
  then show ?thesis by (simp add: eval_delete_2)
qed

theorem delete_complement_witness:
  "parse_pagespec ascii_runtime (str ''1-2,4'') 4 = Inr [1, 2, 4] \<and>
   pages_to_keep ascii_runtime (str ''1-2,4'') 4 (str ''delete'') = Inr [3] \<and>
   parse_pagespec ascii_runtime (str ''1-3'') 3 = Inr [1, 2, 3] \<and>
   pages_to_keep ascii_runtime (str ''1-3'') 3 (str ''delete'') =
     Inl (PageSpecError CannotDeleteAllPages)"
proof -
  have a: "{1..4} - set [1, 2, 4 :: int] = {3}" by auto
  have b: "{1..3} - set [1, 2, 3 :: int] = {}" by auto
  from delete_complement [OF eval_124 [of ascii_runtime]]
    delete_complement [OF eval_123 [of ascii_runtime]]
    eval_124 [of ascii_runtime] eval_123 [of ascii_runtime]
  show ?thesis unfolding a b by simp
qed

text \<open>
  C4. A range token whose bounds parse to \<open>start\<close> and \<open>end\<close> with \<open>0 < start \<le> end\<close> is
  expanded one page at a time in ascending order: the loop raises "page exceeds total
  pages" for the first page of \<open>start..end\<close> that is greater than \<open>total_pages\<close> (which is
  the greater of \<open>start\<close> and \<open>total_pages + 1\<close>), and when there is none it goes on to
  the next token with all pages of the range added. \<open>parse_pagespec("5-10", 7)\<close> fails
  on page 8.
\<close>

theorem range_checked_page_by_page:
  assumes "split (strip p) hyphen = [a, b]"
    and "py_int rt (strip a) = Some start" and "py_int rt (strip b) = Some end"
    and "0 < start" and "start \<le> end"
  shows "parse_parts rt (p # parts) total_pages pages =
           (case find (\<lambda>page. total_pages < page) [start..end] of
              Some page \<Rightarrow> Inl (PageSpecError (PageExceedsTotal page total_pages))
            | None \<Rightarrow> parse_parts rt parts total_pages (pages \<union> {start..end})) \<and>
         (total_pages < end \<longrightarrow>
            find (\<lambda>page. total_pages < page) [start..end] = Some (max start (total_pages + 1))) \<and>
         parse_pagespec rt (str ''5-10'') 7 = Inl (PageSpecError (PageExceedsTotal 8 7))"
proof -
  from assms(1) have h: "hyphen \<in> set (strip p)" by (rule split_two_sep)
  then have ne: "strip p \<noteq> []" by auto
  from assms(2,3) have sides: "strip a \<noteq> []" "strip b \<noteq> []"
    by (auto simp: py_int_Nil)
  have "range_token rt (strip p) total_pages pages = add_range [start..end] total_pages pages"
    using assms sides by (simp add: range_token_two [OF assms(1)])
  with h ne have "parse_parts rt (p # parts) total_pages pages =
      (case add_range [start..end] total_pages pages of
         Inl e \<Rightarrow> Inl e
       | Inr pages' \<Rightarrow> parse_parts rt parts total_pages pages')"
    by (simp add: parse_parts_Cons)
  then have first: "parse_parts rt (p # parts) total_pages pages =
      (case find (\<lambda>page. total_pages < page) [start..end] of
         Some page \<Rightarrow> Inl (PageSpecError (PageExceedsTotal page total_pages))
       | None \<Rightarrow> parse_parts rt parts total_pages (pages \<union> {start..end}))"
    by (simp add: add_range_find split: option.splits)
  from assms(5) have second: "total_pages < end \<longrightarrow>
      find (\<lambda>page. total_pages < page) [start..end] = Some (max start (total_pages + 1))"
    by (simp add: find_upto_Some)
  from first second eval_5_10 show ?thesis by blast
qed

theorem range_checked_page_by_page_witness:
  "parse_parts ascii_runtime [str ''5-10''] 7 {} = Inl (PageSpecError (PageExceedsTotal 8 7)) \<and>
   find (\<lambda>page. 7 < page) [5..10 :: int] = Some 8"
proof -
  have a: "split (strip (str ''5-10'')) hyphen = [str ''5'', str ''10'']" by (rule split_5_10)
  have b: "py_int ascii_runtime (strip (str ''5'')) = Some 5"
    by (simp add: strip_digits py_int_5)
  have c: "py_int ascii_runtime (strip (str ''10'')) = Some 10"
    by (simp add: strip_digits py_int_10)
  have d: "(0::int) < 5" "(5::int) \<le> 10" by simp_all
  from range_checked_page_by_page [OF a b c d, of "[]" 7 "{}"] show ?thesis by simp
qed

text \<open>
  C5. A token that is empty after trimming is skipped: the loop goes on to the next token
  with the set unchanged, and \<open>parse_pagespec(",,1,,", 5)\<close> returns \<open>[1]\<close>. The "no valid
  pages found" error is raised exactly when the input is not whitespace only and every
  comma-separated token is empty after trimming, that is, exactly when the input has a
  character that is not whitespace and consists of commas and whitespace only.
\<close>

theorem no_valid_pages_iff:
  "(strip p = [] \<longrightarrow>
      parse_parts rt (p # parts) total_pages pages = parse_parts rt parts total_pages pages) \<and>
   parse_pagespec rt (str '',,1,,'') 5 = Inr [1] \<and>
   (parse_pagespec rt spec total_pages = Inl (PageSpecError NoValidPages) \<longleftrightarrow>
      strip spec \<noteq> [] \<and> (\<forall>part\<in>set (split (strip spec) comma). strip part = [])) \<and>
   (parse_pagespec rt spec total_pages = Inl (PageSpecError NoValidPages) \<longleftrightarrow>
      (\<exists>c\<in>set spec. \<not> isspace c) \<and> (\<forall>c\<in>set spec. c = comma \<or> isspace c))"
proof -
  have "strip p = [] \<longrightarrow>
      parse_parts rt (p # parts) total_pages pages = parse_parts rt parts total_pages pages"
    by (simp add: parse_parts_Cons)
  moreover note eval_commas_1 [of rt]
  moreover note parse_pagespec_no_valid_iff [of rt spec total_pages]
  moreover have "parse_pagespec rt spec total_pages = Inl (PageSpecError NoValidPages) \<longleftrightarrow>
      (\<exists>c\<in>set spec. \<not> isspace c) \<and> (\<forall>c\<in>set spec. c = comma \<or> isspace c)"
    unfolding parse_pagespec_no_valid_iff by (rule commas_and_blanks_iff)
  ultimately show ?thesis by blast
qed

theorem no_valid_pages_iff_witness:
  "strip (str '' , ,'') \<noteq> [] \<and>
   list_all (\<lambda>part. strip part = []) (split (strip (str '' , ,'')) comma) \<and>
   parse_pagespec ascii_runtime (str '' , ,'') 5 = Inl (PageSpecError NoValidPages) \<and>
   parse_parts ascii_runtime [str '' '', str ''1''] 5 {} =
     parse_parts ascii_runtime [str ''1''] 5 {} \<and>
   parse_pagespec ascii_runtime (str '',,1,,'') 5 = Inr [1]"
proof -
  have "strip (str '' , ,'') \<noteq> [] \<and>
        (\<forall>part\<in>set (split (strip (str '' , ,'')) comma). strip part = [])"
    and "strip (str '' '') = []"
    by (simp_all add: str_def strip_def isspace_def comma_def)
  with no_valid_pages_iff [where p = "str '' ''" and rt = ascii_runtime
      and parts = "[str ''1'']" and total_pages = 5 and pages = "{}" and spec = "str '' , ,''"]
  show ?thesis by (simp add: list_all_iff)
qed

text \<open>
  C6. A non-empty token that contains a hyphen is handled by the range branch. That branch
  splits the token at the hyphens and raises "invalid range format" exactly when the
  token does not consist of two sides that are both non-empty after trimming; for a token
  of two non-empty sides it raises "invalid numbers in range" exactly when \<open>int\<close> refuses
  one of the sides. The token \<open>"-"\<close> has two empty sides and is an invalid range format.
\<close>

theorem range_format_errors:
  assumes "part = strip p" and "part \<noteq> []" and "hyphen \<in> set part"
  shows "parse_parts rt (p # parts) total_pages pages =
           (case range_token rt part total_pages pages of
              Inl e \<Rightarrow> Inl e
            | Inr pages' \<Rightarrow> parse_parts rt parts total_pages pages') \<and>
         (range_token rt part total_pages pages = Inl (PageSpecError (InvalidRangeFormat part)) \<longleftrightarrow>
            \<not> (\<exists>a b. split part hyphen = [a, b] \<and> strip a \<noteq> [] \<and> strip b \<noteq> [])) \<and>
         (range_token rt part total_pages pages = Inl (PageSpecError (InvalidNumbersInRange part)) \<longleftrightarrow>
            (\<exists>a b. split part hyphen = [a, b] \<and> strip a \<noteq> [] \<and> strip b \<noteq> [] \<and>
                   (py_int rt (strip a) = None \<or> py_int rt (strip b) = None))) \<and>
         parse_pagespec rt (str ''-'') total_pages =
           Inl (PageSpecError (InvalidRangeFormat (str ''-'')))"
proof -
  have dispatch: "parse_parts rt (p # parts) total_pages pages =
      (case range_token rt part total_pages pages of
         Inl e \<Rightarrow> Inl e
       | Inr pages' \<Rightarrow> parse_parts rt parts total_pages pages')"
    using assms by (simp add: parse_parts_Cons)
  have fmt: "range_token rt part total_pages pages = Inl (PageSpecError (InvalidRangeFormat part)) \<longleftrightarrow>
      \<not> (\<exists>a b. split part hyphen = [a, b] \<and> strip a \<noteq> [] \<and> strip b \<noteq> [])"
  proof (cases "length (split part hyphen) = 2")
    case False
    then show ?thesis by (auto simp: range_token_not_two)
  next
    case True
    then obtain a b where ab: "split part hyphen = [a, b]" by (auto simp: length_two)
    show ?thesis
      unfolding range_token_two [OF ab] using ab
      by (auto split: option.splits dest!: add_range_Inl)
  qed
  have num: "range_token rt part total_pages pages = Inl (PageSpecError (InvalidNumbersInRange part)) \<longleftrightarrow>
      (\<exists>a b. split part hyphen = [a, b] \<and> strip a \<noteq> [] \<and> strip b \<noteq> [] \<and>
             (py_int rt (strip a) = None \<or> py_int rt (strip b) = None))"
  proof (cases "length (split part hyphen) = 2")
    case False
    then show ?thesis by (auto simp: range_token_not_two)
  next
    case True
    then obtain a b where ab: "split part hyphen = [a, b]" by (auto simp: length_two)
    show ?thesis
      unfolding range_token_two [OF ab] using ab
      by (auto split: option.splits dest!: add_range_Inl)
  qed
  from dispatch fmt num eval_hyphen show ?thesis by blast
qed

theorem range_format_errors_witness:
  "parse_parts ascii_runtime [str ''5-x''] 7 {} =
     Inl (PageSpecError (InvalidNumbersInRange (str ''5-x''))) \<and>
   range_token ascii_runtime (str ''5-x'') 7 {} \<noteq>
     Inl (PageSpecError (InvalidRangeFormat (str ''5-x''))) \<and>
   parse_pagespec ascii_runtime (str ''-'') 7 = Inl (PageSpecError (InvalidRangeFormat (str ''-'')))"
proof -
  have a: "str ''5-x'' = strip (str ''5-x'')" by (simp add: str_def strip_def isspace_def)
  have b: "str ''5-x'' \<noteq> []" by (simp add: str_def)
  have c: "hyphen \<in> set (str ''5-x'')" by (simp add: str_def hyphen_def)
  have s: "split (str ''5-x'') hyphen = [str ''5'', str ''x'']"
    by (simp add: str_def hyphen_def)
  have d: "strip (str ''5'') \<noteq> []" "strip (str ''x'') \<noteq> []"
    "py_int ascii_runtime (strip (str ''x'')) = None"
    by (simp_all add: str_def token_defs)
  from range_format_errors [OF a b c, where rt = ascii_runtime and parts = "[]"
      and total_pages = 7 and pages = "{}"] s d
  show ?thesis by auto
qed

text \<open>
  C7. \<open>parse_pagespec\<close> raises the "empty specification" error exactly when every
  character of the input is whitespace (the empty string included); an input with any
  other character gets past that check. Both \<open>""\<close> and \<open>"   "\<close> are refused.
\<close>

theorem empty_specification_iff:
  "(parse_pagespec rt spec total_pages = Inl (PageSpecError EmptySpecification) \<longleftrightarrow>
      (\<forall>c\<in>set spec. isspace c)) \<and>
   parse_pagespec rt (str '''') 5 = Inl (PageSpecError EmptySpecification) \<and>
   parse_pagespec rt (str ''   '') 5 = Inl (PageSpecError EmptySpecification)"
  using parse_pagespec_empty_iff [of rt spec total_pages] eval_empty [of rt] eval_blank [of rt]
  by blast

theorem empty_specification_iff_witness:
  "list_all isspace (str ''   '') \<and>
   parse_pagespec ascii_runtime (str ''   '') 5 = Inl (PageSpecError EmptySpecification) \<and>
   \<not> list_all isspace (str ''1'') \<and>
   parse_pagespec ascii_runtime (str ''1'') 5 \<noteq> Inl (PageSpecError EmptySpecification)"
proof -
  have a: "list_all isspace (str ''   '')" "\<not> list_all isspace (str ''1'')"
    by (simp_all add: str_def isspace_def)
  with empty_specification_iff [of ascii_runtime "str ''   ''" 5]
    empty_specification_iff [of ascii_runtime "str ''1''" 5]
  show ?thesis by (simp add: list_all_iff)
qed

text \<open>
  C8. When the specification parses and the mode is neither \<open>"extract"\<close> nor \<open>"delete"\<close>,
  \<open>pages_to_keep\<close> raises \<open>ValueError\<close> with the mode in its message; what it raises is
  not a \<open>PageSpecError\<close>.
\<close>

theorem invalid_mode_value_error:
  assumes "parse_pagespec rt spec total_pages = Inr ps"
    and "mode \<noteq> str ''extract''" and "mode \<noteq> str ''delete''"
  shows "pages_to_keep rt spec total_pages mode = Inl (ValueError mode) \<and>
         (\<forall>m. pages_to_keep rt spec total_pages mode \<noteq> Inl (PageSpecError m))"
  using assms by (simp add: pages_to_keep_def)

theorem invalid_mode_value_error_witness:
  "parse_pagespec ascii_runtime (str ''1'') 5 = Inr [1] \<and>
   pages_to_keep ascii_runtime (str ''1'') 5 (str ''merge'') = Inl (ValueError (str ''merge''))"
proof -
  have m: "str ''merge'' \<noteq> str ''extract''" "str ''merge'' \<noteq> str ''delete''"
    by (simp_all add: str_def)
  from invalid_mode_value_error [OF eval_1 [of ascii_runtime] m] eval_1 [of ascii_runtime]
  show ?thesis by simp
qed

text \<open>
  C9. Whenever \<open>parse_pagespec\<close> returns a list, the list is strictly increasing, and
  \<open>pages_to_keep\<close> in extract mode returns that same list.
\<close>

theorem parse_pagespec_strictly_increasing:
  assumes "parse_pagespec rt spec total_pages = Inr ps"
  shows "sorted_wrt (<) ps \<and> pages_to_keep rt spec total_pages (str ''extract'') = Inr ps"
proof -
  from parse_pagespec_Inr [OF assms] obtain pages where "ps = sorted_list_of_set pages"
    by blast
  then have "sorted_wrt (<) ps" by simp
  with assms show ?thesis by (simp add: pages_to_keep_def)
qed

theorem parse_pagespec_strictly_increasing_witness:
  "parse_pagespec ascii_runtime (str ''5,1,3'') 5 = Inr [1, 3, 5] \<and>
   sorted_wrt (<) [1, 3, 5 :: int] \<and>
   pages_to_keep ascii_runtime (str ''5,1,3'') 5 (str ''extract'') = Inr [1, 3, 5]"
  using parse_pagespec_strictly_increasing [OF eval_513 [of ascii_runtime]]
    eval_513 [of ascii_runtime]
  by simp

text \<open>
  C10. With \<open>total_pages = 0\<close>, \<open>parse_pagespec\<close> raises a \<open>PageSpecError\<close> for every input,
  and so does \<open>pages_to_keep\<close> in every mode. Whitespace-only input fails as an empty
  specification; input of commas and whitespace fails with "no valid pages found"; a
  single-page token that names a page, and a range token with \<open>0 < start \<le> end\<close>, fail
  because the first page they name exceeds the total of 0.
\<close>

theorem zero_pages_always_fails:
  "(\<exists>m. parse_pagespec rt spec 0 = Inl (PageSpecError m) \<and>
        pages_to_keep rt spec 0 mode = Inl (PageSpecError m)) \<and>
   ((\<forall>c\<in>set spec. isspace c) \<longrightarrow>
      parse_pagespec rt spec 0 = Inl (PageSpecError EmptySpecification)) \<and>
   ((\<exists>c\<in>set spec. \<not> isspace c) \<and> (\<forall>c\<in>set spec. c = comma \<or> isspace c) \<longrightarrow>
      parse_pagespec rt spec 0 = Inl (PageSpecError NoValidPages)) \<and>
   (py_int rt part = Some page \<and> 0 < page \<longrightarrow>
      single_token rt part 0 pages = Inl (PageSpecError (PageExceedsTotal page 0))) \<and>
   (split range_part hyphen = [a, b] \<and> py_int rt (strip a) = Some start \<and>
    py_int rt (strip b) = Some end \<and> 0 < start \<and> start \<le> end \<longrightarrow>
      range_token rt range_part 0 pages = Inl (PageSpecError (PageExceedsTotal start 0)))"
proof -
  have fails: "\<exists>m. parse_pagespec rt spec 0 = Inl (PageSpecError m) \<and>
      pages_to_keep rt spec 0 mode = Inl (PageSpecError m)"
  proof (cases "parse_pagespec rt spec 0")
    case (Inr ps)
    from parse_pagespec_Inr [OF Inr] show ?thesis by force
  next
    case (Inl e)
    have "\<exists>m. e = PageSpecError m"
    proof (cases "parse_parts rt (split (strip spec) comma) 0 {}")
      case parts: (Inl e')
      from parse_parts_Inl [OF parts] parts Inl show ?thesis
        by (auto simp: parse_pagespec_def split: if_splits)
    next
      case (Inr pages)
      with Inl show ?thesis by (auto simp: parse_pagespec_def split: if_splits)
    qed
    with Inl show ?thesis by (auto simp: pages_to_keep_def)
  qed
  have blank: "(\<forall>c\<in>set spec. isspace c) \<longrightarrow>
      parse_pagespec rt spec 0 = Inl (PageSpecError EmptySpecification)"
    by (simp add: parse_pagespec_empty_iff)
  have commas: "(\<exists>c\<in>set spec. \<not> isspace c) \<and> (\<forall>c\<in>set spec. c = comma \<or> isspace c) \<longrightarrow>
      parse_pagespec rt spec 0 = Inl (PageSpecError NoValidPages)"
    unfolding parse_pagespec_no_valid_iff commas_and_blanks_iff by simp
  have single: "py_int rt part = Some page \<and> 0 < page \<longrightarrow>
      single_token rt part 0 pages = Inl (PageSpecError (PageExceedsTotal page 0))"
    by (simp add: single_token_def)
  have range: "split range_part hyphen = [a, b] \<and> py_int rt (strip a) = Some start \<and>
      py_int rt (strip b) = Some end \<and> 0 < start \<and> start \<le> end \<longrightarrow>
      range_token rt range_part 0 pages = Inl (PageSpecError (PageExceedsTotal start 0))"
  proof (intro impI, elim conjE)
    assume ab: "split range_part hyphen = [a, b]" and s: "py_int rt (strip a) = Some start"
      and e: "py_int rt (strip b) = Some end" and pos: "0 < start" and le: "start \<le> end"
    from s e have "strip a \<noteq> []" "strip b \<noteq> []" by (auto simp: py_int_Nil)
    with s e pos le
    show "range_token rt range_part 0 pages = Inl (PageSpecError (PageExceedsTotal start 0))"
      by (simp add: range_token_two [OF ab] upto_rec1)
  qed
  from fails blank commas single range show ?thesis by blast
qed

theorem zero_pages_always_fails_witness:
  "parse_pagespec ascii_runtime (str ''   '') 0 = Inl (PageSpecError EmptySpecification) \<and>
   pages_to_keep ascii_runtime (str ''   '') 0 (str ''extract'') =
     Inl (PageSpecError EmptySpecification) \<and>
   single_token ascii_runtime (str ''5'') 0 {} = Inl (PageSpecError (PageExceedsTotal 5 0)) \<and>
   range_token ascii_runtime (str ''5-10'') 0 {} = Inl (PageSpecError (PageExceedsTotal 5 0))"
proof -
  have a: "\<forall>c\<in>set (str ''   ''). isspace c" by (simp add: str_def isspace_def)
  have b: "py_int ascii_runtime (str ''5'') = Some 5 \<and> (0::int) < 5" by (simp add: py_int_5)
  have c: "split (str ''5-10'') hyphen = [str ''5'', str ''10''] \<and>
      py_int ascii_runtime (strip (str ''5'')) = Some 5 \<and>
      py_int ascii_runtime (strip (str ''10'')) = Some 10 \<and> (0::int) < 5 \<and> (5::int) \<le> 10"
    by (simp add: strip_digits py_int_5 py_int_10) (simp add: str_def hyphen_def)
  from zero_pages_always_fails [where rt = ascii_runtime and spec = "str ''   ''"
      and mode = "str ''extract''" and part = "str ''5''" and page = 5 and pages = "{}"
      and range_part = "str ''5-10''" and a = "str ''5''" and b = "str ''10''"
      and start = 5 and ?end = 10] a b c
  show ?thesis by (auto simp: pages_to_keep_def)
qed

end
